theory Spec2Isabelle
  imports Complex_Main "HOL-Library.AList" "HOL-Library.Multiset"
begin

section \<open>JavaScript values\<close>

text \<open>
  The server of \<^verbatim>\<open>src/server.js\<close> works on values parsed from JSON bodies and on
  query-string parameters. Its behaviour depends on JavaScript's implicit coercions
  (\<^verbatim>\<open>Number(x)\<close>, \<^verbatim>\<open>x || d\<close>, \<^verbatim>\<open>x ?? d\<close>, \<^verbatim>\<open>x += 1\<close>, \<^verbatim>\<open>===\<close>, \<^verbatim>\<open><\<close>), so the values and
  the coercions are embedded first.

  Numbers: an IEEE double is modelled as an exact rational, or one of the three special
  values. Rounding to 53 bits, overflow to infinity and the negative zero are not modelled:
  reading a decimal literal and adding are exact here. They are exact in JavaScript too on
  the integers of magnitude up to \<open>2\<^sup>5\<^sup>3\<close>, and the property of the pages below, which
  depends on the offsets and their sums with the limit being exact, is stated for those.
  A number inside a \<open>json\<close> value is the one that \<^verbatim>\<open>JSON.parse\<close> has delivered.

  Strings: a JavaScript string is modelled as a \<^typ>\<open>string\<close>, a character being a code
  unit below 256. Strings with other code units are outside the model.
\<close>

datatype jsnum = NaN | NegInf | Fin rat | PosInf

datatype json =
    JNull
  | JBool bool
  | JNum jsnum
  | JStr string
  | JArr "json list"
  | JObj "(string \<times> json) list"

text \<open>An object lists each of its keys once, in insertion order, as \<^verbatim>\<open>JSON.parse\<close> delivers it.\<close>

subsection \<open>Numbers\<close>

text \<open>\<^verbatim>\<open>Number.isNaN(n)\<close>\<close>

definition Number_isNaN :: "jsnum \<Rightarrow> bool" where
  "Number_isNaN n = (n = NaN)"

text \<open>\<^verbatim>\<open>a < b\<close> on numbers: false as soon as one side is NaN.\<close>

fun num_lt :: "jsnum \<Rightarrow> jsnum \<Rightarrow> bool" where
  "num_lt NaN _ = False"
| "num_lt _ NaN = False"
| "num_lt (Fin a) (Fin b) = (a < b)"
| "num_lt NegInf NegInf = False"
| "num_lt NegInf _ = True"
| "num_lt _ NegInf = False"
| "num_lt PosInf _ = False"
| "num_lt _ PosInf = True"

text \<open>\<^verbatim>\<open>Math.max(a, b)\<close> and \<^verbatim>\<open>Math.min(a, b)\<close>: NaN when an argument is NaN.\<close>

definition Math_max :: "jsnum \<Rightarrow> jsnum \<Rightarrow> jsnum" where
  "Math_max a b = (if a = NaN \<or> b = NaN then NaN else if num_lt a b then b else a)"

definition Math_min :: "jsnum \<Rightarrow> jsnum \<Rightarrow> jsnum" where
  "Math_min a b = (if a = NaN \<or> b = NaN then NaN else if num_lt b a then b else a)"

text \<open>\<^verbatim>\<open>a + b\<close> on numbers; the sum of two finite numbers is exact here.\<close>

fun num_add :: "jsnum \<Rightarrow> jsnum \<Rightarrow> jsnum" where
  "num_add NaN _ = NaN"
| "num_add _ NaN = NaN"
| "num_add (Fin a) (Fin b) = Fin (a + b)"
| "num_add PosInf NegInf = NaN"
| "num_add NegInf PosInf = NaN"
| "num_add PosInf _ = PosInf"
| "num_add _ PosInf = PosInf"
| "num_add NegInf _ = NegInf"
| "num_add _ NegInf = NegInf"

text \<open>\<^verbatim>\<open>Number.isInteger(n)\<close>.\<close>

fun Number_isInteger :: "jsnum \<Rightarrow> bool" where
  "Number_isInteger (Fin r) = (of_int \<lfloor>r\<rfloor> = r)"
| "Number_isInteger _ = False"

text \<open>
  \<^verbatim>\<open>Math.round(n * 10) / 10\<close>; \<^verbatim>\<open>Math.round\<close> rounds a half towards plus infinity.
\<close>

fun round1 :: "jsnum \<Rightarrow> jsnum" where
  "round1 (Fin r) = Fin (of_int \<lfloor>r * 10 + 1 / 2\<rfloor> / 10)"
| "round1 n = n"

subsection \<open>Strings\<close>

text \<open>
  The capital letters below 256 with their small letters: the ASCII ones, and U+00C0 to
  U+00DE without the multiplication sign U+00D7.
\<close>

definition upper_lower :: "(char \<times> char) list" where
  "upper_lower =
     zip (''ABCDEFGHIJKLMNOPQRSTUVWXYZ'' @
       [CHR 0xC0, CHR 0xC1, CHR 0xC2, CHR 0xC3, CHR 0xC4, CHR 0xC5, CHR 0xC6, CHR 0xC7,
        CHR 0xC8, CHR 0xC9, CHR 0xCA, CHR 0xCB, CHR 0xCC, CHR 0xCD, CHR 0xCE, CHR 0xCF,
        CHR 0xD0, CHR 0xD1, CHR 0xD2, CHR 0xD3, CHR 0xD4, CHR 0xD5, CHR 0xD6, CHR 0xD8,
        CHR 0xD9, CHR 0xDA, CHR 0xDB, CHR 0xDC, CHR 0xDD, CHR 0xDE])
      (''abcdefghijklmnopqrstuvwxyz'' @
       [CHR 0xE0, CHR 0xE1, CHR 0xE2, CHR 0xE3, CHR 0xE4, CHR 0xE5, CHR 0xE6, CHR 0xE7,
        CHR 0xE8, CHR 0xE9, CHR 0xEA, CHR 0xEB, CHR 0xEC, CHR 0xED, CHR 0xEE, CHR 0xEF,
        CHR 0xF0, CHR 0xF1, CHR 0xF2, CHR 0xF3, CHR 0xF4, CHR 0xF5, CHR 0xF6, CHR 0xF8,
        CHR 0xF9, CHR 0xFA, CHR 0xFB, CHR 0xFC, CHR 0xFD, CHR 0xFE])"

text \<open>\<^verbatim>\<open>s.toLowerCase()\<close>\<close>

definition toLowerCase :: "string \<Rightarrow> string" where
  "toLowerCase s = map (\<lambda>c. case map_of upper_lower c of Some d \<Rightarrow> d | None \<Rightarrow> c) s"

fun starts_with :: "string \<Rightarrow> string \<Rightarrow> bool" where
  "starts_with s [] = True"
| "starts_with [] (c # q) = False"
| "starts_with (d # s) (c # q) = (d = c \<and> starts_with s q)"

text \<open>\<^verbatim>\<open>s.includes(q)\<close>.\<close>

fun str_includes :: "string \<Rightarrow> string \<Rightarrow> bool" where
  "str_includes [] q = (q = [])"
| "str_includes (c # s) q = (starts_with (c # s) q \<or> str_includes s q)"

text \<open>\<^verbatim>\<open>s < t\<close> on strings: lexicographic on the character codes.\<close>

fun str_lt :: "string \<Rightarrow> string \<Rightarrow> bool" where
  "str_lt _ [] = False"
| "str_lt [] (c # t) = True"
| "str_lt (d # s) (c # t) = ((of_char d :: nat) < of_char c \<or> (d = c \<and> str_lt s t))"

text \<open>\<^verbatim>\<open>xs.join(sep)\<close> on strings.\<close>

fun join :: "string \<Rightarrow> string list \<Rightarrow> string" where
  "join sep [] = []"
| "join sep [s] = s"
| "join sep (s # t # ss) = s @ sep @ join sep (t # ss)"

subsection \<open>Number to string\<close>

definition digit_char :: "nat \<Rightarrow> char" where
  "digit_char d = ''0123456789'' ! (d mod 10)"

fun show_nat :: "nat \<Rightarrow> string" where
  "show_nat n = (if n < 10 then [digit_char n] else show_nat (n div 10) @ [digit_char (n mod 10)])"

declare show_nat.simps [simp del]

text \<open>The decimal digits of a fraction \<open>0 \<le> r < 1\<close>, at most \<open>k\<close> of them.\<close>

fun frac_digits :: "nat \<Rightarrow> rat \<Rightarrow> string" where
  "frac_digits 0 r = []"
| "frac_digits (Suc k) r =
     (if r = 0 then []
      else digit_char (nat \<lfloor>r * 10\<rfloor>) # frac_digits k (r * 10 - of_int \<lfloor>r * 10\<rfloor>))"

text \<open>
  \<^verbatim>\<open>String(n)\<close> for a number. An integer is written with its decimal digits, as
  JavaScript does below \<open>10\<^sup>2\<^sup>1\<close>. Another finite value is written with its integer part, a
  point and its decimal expansion cut at 20 places; JavaScript's exponent notation and its
  choice of the shortest digits that read back as the same double are not modelled.
\<close>

fun num_to_string :: "jsnum \<Rightarrow> string" where
  "num_to_string NaN = ''NaN''"
| "num_to_string PosInf = ''Infinity''"
| "num_to_string NegInf = ''-Infinity''"
| "num_to_string (Fin r) =
     (let a = \<bar>r\<bar>; i = \<lfloor>a\<rfloor>; f = a - of_int i
      in (if r < 0 then ''-'' else '''') @ show_nat (nat i) @
         (if f = 0 then '''' else ''.'' @ frac_digits 20 f))"

subsection \<open>String to number\<close>

definition digit_values :: "(char \<times> nat) list" where
  "digit_values =
     [(CHR ''0'', 0), (CHR ''1'', 1), (CHR ''2'', 2), (CHR ''3'', 3), (CHR ''4'', 4),
      (CHR ''5'', 5), (CHR ''6'', 6), (CHR ''7'', 7), (CHR ''8'', 8), (CHR ''9'', 9),
      (CHR ''a'', 10), (CHR ''b'', 11), (CHR ''c'', 12), (CHR ''d'', 13), (CHR ''e'', 14),
      (CHR ''f'', 15), (CHR ''A'', 10), (CHR ''B'', 11), (CHR ''C'', 12), (CHR ''D'', 13),
      (CHR ''E'', 14), (CHR ''F'', 15)]"

text \<open>The value of a digit in the given base, when it is one.\<close>

definition digit_in :: "nat \<Rightarrow> char \<Rightarrow> nat option" where
  "digit_in base c =
     (case map_of digit_values c of
        None \<Rightarrow> None
      | Some d \<Rightarrow> if d < base then Some d else None)"

definition is_digit :: "nat \<Rightarrow> char \<Rightarrow> bool" where
  "is_digit base c = (digit_in base c \<noteq> None)"

definition digits_value :: "nat \<Rightarrow> string \<Rightarrow> nat" where
  "digits_value base s = foldl (\<lambda>a c. a * base + (case digit_in base c of Some d \<Rightarrow> d | None \<Rightarrow> 0)) 0 s"

text \<open>The white space and line terminators among the code units below 256.\<close>

definition is_space :: "char \<Rightarrow> bool" where
  "is_space c =
     (c \<in> set [CHR '' '', CHR 0x09, CHR 0x0A, CHR 0x0B, CHR 0x0C, CHR 0x0D, CHR 0xA0])"

definition trim :: "string \<Rightarrow> string" where
  "trim s = rev (dropWhile is_space (rev (dropWhile is_space s)))"

text \<open>The exponent part of a decimal literal: absent, or \<^verbatim>\<open>e\<close> with a signed integer.\<close>

definition parse_exponent :: "string \<Rightarrow> int option" where
  "parse_exponent s =
     (case s of
        [] \<Rightarrow> Some 0
      | c # t \<Rightarrow>
          if c = CHR ''e'' \<or> c = CHR ''E'' then
            (let neg = (t \<noteq> [] \<and> hd t = CHR ''-'');
                 ds = (if t \<noteq> [] \<and> (hd t = CHR ''-'' \<or> hd t = CHR ''+'') then tl t else t)
             in if ds \<noteq> [] \<and> list_all (is_digit 10) ds
                then Some ((if neg then - 1 else 1) * int (digits_value 10 ds))
                else None)
          else None)"

text \<open>An unsigned decimal literal: \<^verbatim>\<open>12\<close>, \<^verbatim>\<open>12.\<close>, \<^verbatim>\<open>12.5\<close>, \<^verbatim>\<open>.5\<close>, each with an optional exponent.\<close>

definition parse_decimal :: "string \<Rightarrow> rat option" where
  "parse_decimal s =
     (let ip = takeWhile (is_digit 10) s;
          r1 = dropWhile (is_digit 10) s;
          dot = (r1 \<noteq> [] \<and> hd r1 = CHR ''.'');
          fp = (if dot then takeWhile (is_digit 10) (tl r1) else []);
          r2 = (if dot then dropWhile (is_digit 10) (tl r1) else r1)
      in if ip = [] \<and> fp = [] then None
         else (case parse_exponent r2 of
                 None \<Rightarrow> None
               | Some e \<Rightarrow>
                   Some (of_nat (digits_value 10 (ip @ fp)) / 10 ^ length fp *
                         (if 0 \<le> e then 10 ^ nat e else 1 / 10 ^ nat (- e)))))"

text \<open>
  \<^verbatim>\<open>Number(s)\<close> for a string: white space is trimmed, the empty string is 0, then a
  hexadecimal, octal or binary integer, a signed \<^verbatim>\<open>Infinity\<close> or a signed decimal literal;
  anything else is NaN. The value of a literal is kept exactly, where JavaScript rounds it
  to the nearest double.
\<close>

definition radix_literal :: "string \<Rightarrow> jsnum option" where
  "radix_literal s =
     (case s of
        c # p # ds \<Rightarrow>
          (let base = (if p = CHR ''x'' \<or> p = CHR ''X'' then 16
                       else if p = CHR ''o'' \<or> p = CHR ''O'' then 8
                       else if p = CHR ''b'' \<or> p = CHR ''B'' then 2 else 0)
           in if c = CHR ''0'' \<and> base \<noteq> 0 then
                Some (if ds \<noteq> [] \<and> list_all (is_digit base) ds
                      then Fin (of_nat (digits_value base ds)) else NaN)
              else None)
      | _ \<Rightarrow> None)"

definition str_to_number :: "string \<Rightarrow> jsnum" where
  "str_to_number s0 =
     (let s = trim s0
      in if s = [] then Fin 0
         else (case radix_literal s of
                 Some n \<Rightarrow> n
               | None \<Rightarrow>
                   (let neg = (hd s = CHR ''-'');
                        u = (if hd s = CHR ''-'' \<or> hd s = CHR ''+'' then tl s else s)
                    in if u = ''Infinity'' then (if neg then NegInf else PosInf)
                       else (case parse_decimal u of
                               None \<Rightarrow> NaN
                             | Some r \<Rightarrow> Fin (if neg then - r else r)))))"

subsection \<open>Coercions\<close>

text \<open>Truthiness, as \<^verbatim>\<open>!x\<close>, \<^verbatim>\<open>x || d\<close> and \<^verbatim>\<open>x && y\<close> test it.\<close>

fun truthy :: "json \<Rightarrow> bool" where
  "truthy JNull = False"
| "truthy (JBool b) = b"
| "truthy (JNum n) = (n \<noteq> NaN \<and> n \<noteq> Fin 0)"
| "truthy (JStr s) = (s \<noteq> [])"
| "truthy (JArr xs) = True"
| "truthy (JObj kv) = True"

text \<open>
  A property read \<^verbatim>\<open>x.k\<close> gives \<^verbatim>\<open>undefined\<close>, here \<open>None\<close>, when the property is
  absent; so \<^verbatim>\<open>x || d\<close> and \<^verbatim>\<open>x ?? d\<close> take an optional value.
\<close>

definition or_else :: "json option \<Rightarrow> json \<Rightarrow> json" where
  "or_else x d = (case x of Some v \<Rightarrow> if truthy v then v else d | None \<Rightarrow> d)"

definition nullish_else :: "json option \<Rightarrow> json \<Rightarrow> json" where
  "nullish_else x d = (case x of Some v \<Rightarrow> if v = JNull then d else v | None \<Rightarrow> d)"

text \<open>
  \<^verbatim>\<open>String(v)\<close>. An array is the comma-joined strings of its elements, where a null
  element gives the empty string; an object parsed from JSON is \<^verbatim>\<open>[object Object]\<close>.
  Not modelled: an object that has a key \<^verbatim>\<open>toString\<close> or \<^verbatim>\<open>valueOf\<close> of its own hides
  the inherited method, and its conversion to a string or to a number can throw a
  \<^verbatim>\<open>TypeError\<close>. Values with such an object are outside the model.
\<close>

fun to_string :: "json \<Rightarrow> string" where
  "to_string JNull = ''null''"
| "to_string (JBool b) = (if b then ''true'' else ''false'')"
| "to_string (JNum n) = num_to_string n"
| "to_string (JStr s) = s"
| "to_string (JArr xs) = join '','' (map (\<lambda>x. if x = JNull then [] else to_string x) xs)"
| "to_string (JObj kv) = ''[object Object]''"

text \<open>\<^verbatim>\<open>Number(v)\<close>; for an object, see \<open>to_string\<close>.\<close>

fun to_number :: "json \<Rightarrow> jsnum" where
  "to_number JNull = Fin 0"
| "to_number (JBool b) = (if b then Fin 1 else Fin 0)"
| "to_number (JNum n) = n"
| "to_number (JStr s) = str_to_number s"
| "to_number (JArr xs) = str_to_number (to_string (JArr xs))"
| "to_number (JObj kv) = str_to_number (to_string (JObj kv))"

text \<open>
  \<^verbatim>\<open>a === b\<close>. Two numbers are equal when neither is NaN; an array or an object is equal
  only to itself as a reference, and the values compared here come from different
  requests, so the comparison is false for them.
\<close>

fun strict_eq :: "json \<Rightarrow> json \<Rightarrow> bool" where
  "strict_eq JNull JNull = True"
| "strict_eq (JBool a) (JBool b) = (a = b)"
| "strict_eq (JNum a) (JNum b) = (a = b \<and> a \<noteq> NaN)"
| "strict_eq (JStr a) (JStr b) = (a = b)"
| "strict_eq _ _ = False"

text \<open>The primitive of a value: an array or an object becomes its string.\<close>

fun to_primitive :: "json \<Rightarrow> json" where
  "to_primitive (JArr xs) = JStr (to_string (JArr xs))"
| "to_primitive (JObj kv) = JStr (to_string (JObj kv))"
| "to_primitive v = v"

text \<open>\<^verbatim>\<open>a < b\<close>: two strings compare as strings, everything else as numbers.\<close>

definition js_lt :: "json \<Rightarrow> json \<Rightarrow> bool" where
  "js_lt a b =
     (case (to_primitive a, to_primitive b) of
        (JStr s, JStr t) \<Rightarrow> str_lt s t
      | (pa, pb) \<Rightarrow> num_lt (to_number pa) (to_number pb))"

definition js_gt :: "json \<Rightarrow> json \<Rightarrow> bool" where
  "js_gt a b = js_lt b a"

text \<open>\<^verbatim>\<open>v + 1\<close>, the right-hand side of \<^verbatim>\<open>v += 1\<close>: concatenation when \<open>v\<close> is a string.\<close>

definition plus_one :: "json \<Rightarrow> json" where
  "plus_one v =
     (case to_primitive v of
        JStr s \<Rightarrow> JStr (s @ ''1'')
      | p \<Rightarrow> JNum (num_add (to_number p) (Fin 1)))"

subsection \<open>Arrays\<close>

text \<open>
  An index argument of \<^verbatim>\<open>slice\<close>: NaN is 0, a fraction is cut towards zero, a negative
  index counts from the end, and the result is clamped to the length.
\<close>

fun slice_index :: "nat \<Rightarrow> jsnum \<Rightarrow> nat" where
  "slice_index len NaN = 0"
| "slice_index len NegInf = 0"
| "slice_index len PosInf = len"
| "slice_index len (Fin r) =
     (let k = (if r < 0 then \<lceil>r\<rceil> else \<lfloor>r\<rfloor>)
      in if k < 0 then nat (max (int len + k) 0) else min (nat k) len)"

text \<open>\<^verbatim>\<open>xs.slice(start, end)\<close>.\<close>

definition slice :: "'a list \<Rightarrow> jsnum \<Rightarrow> jsnum \<Rightarrow> 'a list" where
  "slice xs start stop =
     (let from = slice_index (length xs) start; final = slice_index (length xs) stop
      in take (final - from) (drop from xs))"

text \<open>
  \<^verbatim>\<open>xs.slice().sort(cmp)\<close>: a stable sort of a copy. It is modelled as a stable insertion
  sort, where \<open>x\<close> goes before \<open>y\<close> unless \<open>cmp x y > 0\<close>. For a comparator that is a consistent
  ordering, every stable sort gives this result.
\<close>

fun insert_by :: "('a \<Rightarrow> 'a \<Rightarrow> int) \<Rightarrow> 'a \<Rightarrow> 'a list \<Rightarrow> 'a list" where
  "insert_by cmp x [] = [x]"
| "insert_by cmp x (y # ys) = (if cmp x y \<le> 0 then x # y # ys else y # insert_by cmp x ys)"

definition sort_by :: "('a \<Rightarrow> 'a \<Rightarrow> int) \<Rightarrow> 'a list \<Rightarrow> 'a list" where
  "sort_by cmp xs = foldr (insert_by cmp) xs []"

section \<open>The record store\<close>

text \<open>
  A book is a JavaScript object; its fields can hold any JSON value, because the code
  checks only some of them. A field that an object lacks reads as \<^verbatim>\<open>undefined\<close>, which
  every use in the server treats as \<^verbatim>\<open>null\<close>, so \<open>JNull\<close> stands for both. The field
  \<^verbatim>\<open>id\<close> is named \<open>ident\<close>.
\<close>

record book =
  ident :: json
  title :: json
  author :: json
  year :: json
  rating :: json
  tags :: json
  createdAt :: json
  updatedAt :: json
  version :: json

text \<open>
  The state: \<^verbatim>\<open>db.books\<close> in memory, and the collection last written to \<^verbatim>\<open>data.json\<close>
  by \<^verbatim>\<open>persist\<close>.
\<close>

record state =
  books :: "book list"
  disk :: "book list"

definition persist :: "state \<Rightarrow> state" where
  "persist db = db\<lparr>disk := books db\<rparr>"

text \<open>The collection that \<^verbatim>\<open>ensureDataFile\<close> writes when there is no data file yet; its readings
  of the clock are taken to give one time \<open>now\<close>.\<close>

definition seed :: "string \<Rightarrow> book list" where
  "seed now =
     [\<lparr>ident = JStr ''b1'', title = JStr ''Clean Architecture'',
       author = JStr ''Robert C. Martin'', year = JNum (Fin 2017), rating = JNum (Fin (46 / 10)),
       tags = JArr [JStr ''architecture''],
       createdAt = JStr now, updatedAt = JStr now, version = JNum (Fin 1)\<rparr>,
      \<lparr>ident = JStr ''b2'', title = JStr ''Designing Data-Intensive Applications'',
       author = JStr ''Martin Kleppmann'', year = JNum (Fin 2017), rating = JNum (Fin (48 / 10)),
       tags = JArr [JStr ''data'', JStr ''systems''],
       createdAt = JStr now, updatedAt = JStr now, version = JNum (Fin 1)\<rparr>,
      \<lparr>ident = JStr ''b3'', title = JStr ''You Don't Know JS Yet'',
       author = JStr ''Kyle Simpson'', year = JNum (Fin 2020), rating = JNum (Fin (45 / 10)),
       tags = JArr [JStr ''javascript''],
       createdAt = JStr now, updatedAt = JStr now, version = JNum (Fin 1)\<rparr>]"

text \<open>The state of a server started without a data file at the time \<open>now\<close>.\<close>

definition initial :: "string \<Rightarrow> state" where
  "initial now = \<lparr>books = seed now, disk = seed now\<rparr>"

subsection \<open>Errors\<close>

datatype details = NoDetails | Problems "string list" | Expected json

text \<open>\<^verbatim>\<open>err(message, code, details)\<close> builds the payload of a failure.\<close>

record payload =
  code :: string
  message :: string
  details :: details

definition err :: "string \<Rightarrow> string \<Rightarrow> details \<Rightarrow> payload" where
  "err msg c d = \<lparr>code = c, message = msg, details = d\<rparr>"

text \<open>
  What the business logic throws: an object with an HTTP status and a payload, or the
  \<^verbatim>\<open>TypeError\<close> that the engine raises on \<^verbatim>\<open>k in x\<close> or \<^verbatim>\<open>x.k\<close> for a value that admits
  neither.
\<close>

datatype exn = Throw nat payload | TypeError

subsection \<open>Lookup\<close>

text \<open>\<^verbatim>\<open>db.books.find(b => b.id === id)\<close>\<close>

definition findBook :: "state \<Rightarrow> json \<Rightarrow> book option" where
  "findBook db i = find (\<lambda>b. strict_eq (ident b) i) (books db)"

subsection \<open>Validation\<close>

text \<open>The whitelist \<^verbatim>\<open>fields\<close> of \<^verbatim>\<open>validateBook\<close>.\<close>

definition book_fields :: "string list" where
  "book_fields = [''id'', ''title'', ''author'', ''year'', ''rating'', ''tags'', ''version'']"

text \<open>
  \<^verbatim>\<open>for (const k of fields) if (k in input) out[k] = input[k]\<close>: the operator \<^verbatim>\<open>in\<close>
  throws a \<^verbatim>\<open>TypeError\<close> on a value that is not an object; an array has none of the keys.
\<close>

definition project :: "json \<Rightarrow> exn + (string \<times> json) list" where
  "project input =
     (case input of
        JObj kv \<Rightarrow>
          Inr (concat (map (\<lambda>k. case map_of kv k of Some v \<Rightarrow> [(k, v)] | None \<Rightarrow> []) book_fields))
      | JArr xs \<Rightarrow> Inr []
      | _ \<Rightarrow> Inl TypeError)"

text \<open>\<^verbatim>\<open>!out.title || typeof out.title !== 'string'\<close>\<close>

definition title_problem :: "json option \<Rightarrow> bool" where
  "title_problem t = (case t of Some (JStr s) \<Rightarrow> s = [] | _ \<Rightarrow> True)"

text \<open>\<^verbatim>\<open>k in out && out[k] != null\<close>\<close>

definition present :: "(string \<times> json) list \<Rightarrow> string \<Rightarrow> json option" where
  "present out k = (case map_of out k of Some v \<Rightarrow> if v = JNull then None else Some v | None \<Rightarrow> None)"

definition check_year :: "(string \<times> json) list \<times> string list \<Rightarrow> (string \<times> json) list \<times> string list" where
  "check_year = (\<lambda>(out, problems).
     case present out ''year'' of
       None \<Rightarrow> (out, problems)
     | Some v \<Rightarrow>
         (let n = to_number v
          in if \<not> Number_isInteger n \<or> num_lt n (Fin 0) \<or> num_lt (Fin 3000) n
             then (out, problems @ [''year must be integer 0..3000''])
             else (AList.update ''year'' (JNum n) out, problems)))"

definition check_rating :: "(string \<times> json) list \<times> string list \<Rightarrow> (string \<times> json) list \<times> string list" where
  "check_rating = (\<lambda>(out, problems).
     case present out ''rating'' of
       None \<Rightarrow> (out, problems)
     | Some v \<Rightarrow>
         (let n = to_number v
          in if Number_isNaN n \<or> num_lt n (Fin 0) \<or> num_lt (Fin 5) n
             then (out, problems @ [''rating must be 0..5''])
             else (AList.update ''rating'' (JNum (round1 n)) out, problems)))"

definition check_tags :: "(string \<times> json) list \<times> string list \<Rightarrow> (string \<times> json) list \<times> string list" where
  "check_tags = (\<lambda>(out, problems).
     case present out ''tags'' of
       None \<Rightarrow> (out, problems)
     | Some (JArr ts) \<Rightarrow>
         (AList.update ''tags'' (JArr (take 20 (map (\<lambda>t. JStr (to_string t)) ts))) out, problems)
     | Some _ \<Rightarrow> (out, problems @ [''tags must be an array of strings'']))"

text \<open>
  \<^verbatim>\<open>validateBook(input, { partial })\<close> returns \<^verbatim>\<open>{ ok, value, problems }\<close>, here a triple.
  The title is looked at in full mode only.
\<close>

definition validateBook :: "json \<Rightarrow> bool \<Rightarrow> exn + bool \<times> (string \<times> json) list \<times> string list" where
  "validateBook input partial =
     (case project input of
        Inl e \<Rightarrow> Inl e
      | Inr out0 \<Rightarrow>
          (let p0 = (if \<not> partial \<and> title_problem (map_of out0 ''title'')
                     then [''title is required (string)''] else []);
               (out, problems) = check_tags (check_rating (check_year (out0, p0)))
           in Inr (problems = [], out, problems)))"

subsection \<open>Create, update, delete\<close>

text \<open>
  The clock and the random bytes are inputs: \<open>now\<close> is what \<^verbatim>\<open>nowISO()\<close> returns and
  \<open>rnd\<close> is \<^verbatim>\<open>crypto.randomBytes(3).toString('hex')\<close>. Every operation returns its result
  together with the state it leaves, also when it throws.
\<close>

definition createBook :: "state \<Rightarrow> string \<Rightarrow> string \<Rightarrow> json \<Rightarrow> (exn + book) \<times> state" where
  "createBook db now rnd input =
     (case validateBook input False of
        Inl e \<Rightarrow> (Inl e, db)
      | Inr (valid, val, problems) \<Rightarrow>
          if \<not> valid then
            (Inl (Throw 400 (err ''Validation failed'' ''VALIDATION'' (Problems problems))), db)
          else if (case map_of val ''id'' of
                     Some i \<Rightarrow> truthy i \<and> findBook db i \<noteq> None
                   | None \<Rightarrow> False) then
            (Inl (Throw 409 (err ''ID already exists'' ''CONFLICT'' NoDetails)), db)
          else
            (let b = \<lparr>ident = or_else (map_of val ''id'') (JStr (''b'' @ rnd)),
                      title = (case map_of val ''title'' of Some t \<Rightarrow> t | None \<Rightarrow> JNull),
                      author = or_else (map_of val ''author'') (JStr ''Unknown''),
                      year = nullish_else (map_of val ''year'') JNull,
                      rating = nullish_else (map_of val ''rating'') JNull,
                      tags = or_else (map_of val ''tags'') (JArr []),
                      createdAt = JStr now, updatedAt = JStr now, version = JNum (Fin 1)\<rparr>
             in (Inr b, persist (db\<lparr>books := books db @ [b]\<rparr>))))"

text \<open>\<^verbatim>\<open>b[k] = v\<close> for one of the whitelisted keys.\<close>

definition set_field :: "string \<times> json \<Rightarrow> book \<Rightarrow> book" where
  "set_field = (\<lambda>(k, v) b.
     if k = ''id'' then b\<lparr>ident := v\<rparr>
     else if k = ''title'' then b\<lparr>title := v\<rparr>
     else if k = ''author'' then b\<lparr>author := v\<rparr>
     else if k = ''year'' then b\<lparr>year := v\<rparr>
     else if k = ''rating'' then b\<lparr>rating := v\<rparr>
     else if k = ''tags'' then b\<lparr>tags := v\<rparr>
     else if k = ''version'' then b\<lparr>version := v\<rparr>
     else b)"

text \<open>\<^verbatim>\<open>Object.assign(b, value)\<close>: every key of \<open>value\<close> is written to \<open>b\<close>, in order.\<close>

definition Object_assign :: "book \<Rightarrow> (string \<times> json) list \<Rightarrow> book" where
  "Object_assign b val = foldl (\<lambda>b kv. set_field kv b) b val"

text \<open>
  The object that \<open>findBook\<close> returns is the first one with the identifier, and the update
  mutates it in place: in the list, that element is replaced.
\<close>

fun replace_first :: "(book \<Rightarrow> bool) \<Rightarrow> book \<Rightarrow> book list \<Rightarrow> book list" where
  "replace_first P b' [] = []"
| "replace_first P b' (b # bs) = (if P b then b' # bs else b # replace_first P b' bs)"

text \<open>\<^verbatim>\<open>patch.version\<close>: a \<^verbatim>\<open>TypeError\<close> on null, \<^verbatim>\<open>undefined\<close> on anything but an object.\<close>

definition patch_version :: "json \<Rightarrow> exn + json option" where
  "patch_version patch =
     (case patch of
        JNull \<Rightarrow> Inl TypeError
      | JObj kv \<Rightarrow> Inr (map_of kv ''version'')
      | _ \<Rightarrow> Inr None)"

text \<open>\<^verbatim>\<open>patch.version != null && Number(patch.version) !== b.version\<close>\<close>

definition version_conflict :: "json option \<Rightarrow> book \<Rightarrow> bool" where
  "version_conflict pv b =
     (case pv of
        None \<Rightarrow> False
      | Some v \<Rightarrow> v \<noteq> JNull \<and> \<not> strict_eq (JNum (to_number v)) (version b))"

definition updateBook :: "state \<Rightarrow> string \<Rightarrow> string \<Rightarrow> json \<Rightarrow> (exn + book) \<times> state" where
  "updateBook db now i patch =
     (case findBook db (JStr i) of
        None \<Rightarrow> (Inl (Throw 404 (err ''Book not found'' ''NOT_FOUND'' NoDetails)), db)
      | Some b \<Rightarrow>
          (case patch_version patch of
             Inl e \<Rightarrow> (Inl e, db)
           | Inr pv \<Rightarrow>
               if version_conflict pv b then
                 (Inl (Throw 409 (err ''Version conflict'' ''VERSION_CONFLICT'' (Expected (version b)))), db)
               else
                 (case validateBook patch True of
                    Inl e \<Rightarrow> (Inl e, db)
                  | Inr (valid, val, problems) \<Rightarrow>
                      if \<not> valid then
                        (Inl (Throw 400 (err ''Validation failed'' ''VALIDATION'' (Problems problems))), db)
                      else
                        (let b1 = Object_assign b val;
                             b2 = b1\<lparr>updatedAt := JStr now\<rparr>;
                             b3 = b2\<lparr>version := plus_one (version b2)\<rparr>
                         in (Inr b3,
                             persist (db\<lparr>books :=
                               replace_first (\<lambda>b. strict_eq (ident b) (JStr i)) b3 (books db)\<rparr>))))))"

text \<open>\<^verbatim>\<open>findIndex\<close> and \<^verbatim>\<open>splice(i, 1)\<close>: the first book with the identifier is removed.\<close>

fun remove_first :: "(book \<Rightarrow> bool) \<Rightarrow> book list \<Rightarrow> book list" where
  "remove_first P [] = []"
| "remove_first P (b # bs) = (if P b then bs else b # remove_first P bs)"

definition deleteBook :: "state \<Rightarrow> string \<Rightarrow> (exn + book) \<times> state" where
  "deleteBook db i =
     (case find (\<lambda>b. strict_eq (ident b) (JStr i)) (books db) of
        None \<Rightarrow> (Inl (Throw 404 (err ''Book not found'' ''NOT_FOUND'' NoDetails)), db)
      | Some removed \<Rightarrow>
          (Inr removed,
           persist (db\<lparr>books := remove_first (\<lambda>b. strict_eq (ident b) (JStr i)) (books db)\<rparr>)))"

section \<open>The query engine\<close>

text \<open>
  The query string is a list of name and value pairs. \<^verbatim>\<open>url.searchParams.get(name)\<close> is
  the value of the first pair with the name, or null, here \<open>None\<close>, when there is none.
\<close>

type_synonym url = "(string \<times> string) list"

definition searchParams_get :: "url \<Rightarrow> string \<Rightarrow> string option" where
  "searchParams_get url name = map_of url name"

text \<open>\<^verbatim>\<open>url.searchParams.get(name) || d\<close> for a string default.\<close>

definition param_or :: "url \<Rightarrow> string \<Rightarrow> string \<Rightarrow> string" where
  "param_or url name d = (case searchParams_get url name of Some s \<Rightarrow> if s = [] then d else s | None \<Rightarrow> d)"

text \<open>\<^verbatim>\<open>Number(url.searchParams.get(name) || d)\<close> for a numeric default.\<close>

definition param_number :: "url \<Rightarrow> string \<Rightarrow> rat \<Rightarrow> jsnum" where
  "param_number url name d =
     (case searchParams_get url name of
        Some s \<Rightarrow> if s = [] then Fin d else str_to_number s
      | None \<Rightarrow> Fin d)"

definition query_q :: "url \<Rightarrow> string" where
  "query_q url = toLowerCase (param_or url ''q'' [])"

definition query_dir :: "url \<Rightarrow> int" where
  "query_dir url = (if toLowerCase (param_or url ''dir'' ''asc'') = ''desc'' then - 1 else 1)"

definition query_limit :: "url \<Rightarrow> jsnum" where
  "query_limit url = Math_min (Math_max (param_number url ''limit'' 20) (Fin 1)) (Fin 100)"

definition query_offset :: "url \<Rightarrow> jsnum" where
  "query_offset url = Math_max (param_number url ''offset'' 0) (Fin 0)"

definition sortable :: "string list" where
  "sortable = [''id'', ''title'', ''author'', ''year'', ''rating'', ''createdAt'', ''updatedAt'']"

definition query_sort :: "url \<Rightarrow> string" where
  "query_sort url =
     (let sort = param_or url ''sort'' ''title'' in if sort \<in> set sortable then sort else ''title'')"

text \<open>
  \<^verbatim>\<open>(v || '').toLowerCase()\<close>: a truthy value that is not a string has no such method,
  and the call throws a \<^verbatim>\<open>TypeError\<close>.
\<close>

definition lower_field :: "json \<Rightarrow> exn + string" where
  "lower_field v =
     (if truthy v then (case v of JStr s \<Rightarrow> Inr (toLowerCase s) | _ \<Rightarrow> Inl TypeError)
      else Inr [])"

text \<open>\<^verbatim>\<open>(Array.isArray(b.tags) ? b.tags.join(',') : '').toLowerCase()\<close>\<close>

definition tags_text :: "book \<Rightarrow> string" where
  "tags_text b = toLowerCase (case tags b of JArr ts \<Rightarrow> to_string (JArr ts) | _ \<Rightarrow> [])"

text \<open>The filter's predicate; \<^verbatim>\<open>||\<close> evaluates its right side only when the left is false.\<close>

definition matches :: "string \<Rightarrow> book \<Rightarrow> exn + bool" where
  "matches q b =
     (case lower_field (title b) of
        Inl e \<Rightarrow> Inl e
      | Inr t \<Rightarrow>
          if str_includes t q then Inr True
          else (case lower_field (author b) of
                  Inl e \<Rightarrow> Inl e
                | Inr a \<Rightarrow>
                    if str_includes a q then Inr True
                    else (case lower_field (ident b) of
                            Inl e \<Rightarrow> Inl e
                          | Inr i \<Rightarrow>
                              if str_includes i q then Inr True
                              else Inr (str_includes (tags_text b) q))))"

text \<open>\<^verbatim>\<open>out.filter(b => ...)\<close>: the first exception of the predicate ends the filter.\<close>

fun filter_books :: "string \<Rightarrow> book list \<Rightarrow> exn + book list" where
  "filter_books q [] = Inr []"
| "filter_books q (b # bs) =
     (case matches q b of
        Inl e \<Rightarrow> Inl e
      | Inr m \<Rightarrow>
          (case filter_books q bs of
             Inl e \<Rightarrow> Inl e
           | Inr r \<Rightarrow> Inr (if m then b # r else r)))"

text \<open>\<^verbatim>\<open>a[s]\<close> for a sortable key.\<close>

definition field :: "string \<Rightarrow> book \<Rightarrow> json" where
  "field s b =
     (if s = ''id'' then ident b
      else if s = ''title'' then title b
      else if s = ''author'' then author b
      else if s = ''year'' then year b
      else if s = ''rating'' then rating b
      else if s = ''createdAt'' then createdAt b
      else if s = ''updatedAt'' then updatedAt b
      else JNull)"

text \<open>The comparator of the sort.\<close>

definition compare :: "string \<Rightarrow> int \<Rightarrow> book \<Rightarrow> book \<Rightarrow> int" where
  "compare s dir a b =
     (let av = nullish_else (Some (field s a)) (JStr []);
          bv = nullish_else (Some (field s b)) (JStr [])
      in if js_gt av bv then dir else if js_lt av bv then - dir else 0)"

record meta =
  m_total :: nat
  m_limit :: jsnum
  m_offset :: jsnum
  m_sort :: string
  m_dir :: string
  m_q :: string

definition applyQuery :: "book list \<Rightarrow> url \<Rightarrow> exn + book list \<times> meta" where
  "applyQuery list url =
     (let q = query_q url;
          dir = query_dir url;
          limit = query_limit url;
          offset = query_offset url
      in case (if q \<noteq> [] then filter_books q list else Inr list) of
           Inl e \<Rightarrow> Inl e
         | Inr out1 \<Rightarrow>
             (let s = query_sort url;
                  out2 = sort_by (compare s dir) out1;
                  total = length out2;
                  out3 = slice out2 offset (num_add offset limit)
              in Inr (out3, \<lparr>m_total = total, m_limit = limit, m_offset = offset, m_sort = s,
                             m_dir = (if dir = 1 then ''asc'' else ''desc''), m_q = q\<rparr>)))"

section \<open>Bulk import\<close>

text \<open>
  An entry of the answer: the created book, or \<^verbatim>\<open>{ error, input }\<close>. The error is the
  payload of what \<open>createBook\<close> threw, or \<^verbatim>\<open>{ code: 'UNKNOWN', message: String(e) }\<close> for
  any other exception; the engine's message text is not modelled.
\<close>

datatype failure = Reported payload | Unknown

datatype entry = Created book | Failed failure json

datatype response = Ok_bulk "entry list" json | Error nat payload

fun failure_of :: "exn \<Rightarrow> failure" where
  "failure_of (Throw c p) = Reported p"
| "failure_of TypeError = Unknown"

text \<open>
  The loop over the items. The \<open>n\<close>-th item is created at the time \<open>fst (env n)\<close> with the
  random bytes \<open>snd (env n)\<close>.
\<close>

text \<open>\<^verbatim>\<open>try { added.push(createBook(raw)) } catch (e) { added.push({ error, input: raw }) }\<close>\<close>

definition entry_of :: "exn + book \<Rightarrow> json \<Rightarrow> entry" where
  "entry_of r raw = (case r of Inr b \<Rightarrow> Created b | Inl x \<Rightarrow> Failed (failure_of x) raw)"

fun bulk_loop :: "state \<Rightarrow> (nat \<Rightarrow> string \<times> string) \<Rightarrow> nat \<Rightarrow> json list \<Rightarrow> entry list \<times> state" where
  "bulk_loop db env n [] = ([], db)"
| "bulk_loop db env n (raw # rest) =
     (let (r, db1) = createBook db (fst (env n)) (snd (env n)) raw;
          (es, db2) = bulk_loop db1 env (Suc n) rest
      in (entry_of r raw # es, db2))"

text \<open>\<^verbatim>\<open>body.k\<close> in the destructuring of the request body.\<close>

definition body_prop :: "json \<Rightarrow> string \<Rightarrow> json option" where
  "body_prop body k = (case body of JObj kv \<Rightarrow> map_of kv k | _ \<Rightarrow> None)"

text \<open>
  The route \<^verbatim>\<open>POST /api/books/bulk\<close>. Destructuring a null body throws, which the server
  answers with status 500.
\<close>

definition bulkImport :: "state \<Rightarrow> (nat \<Rightarrow> string \<times> string) \<Rightarrow> json \<Rightarrow> response \<times> state" where
  "bulkImport db env body =
     (if body = JNull then (Error 500 (err ''Internal server error'' ''INTERNAL'' NoDetails), db)
      else
        (let items = (case body_prop body ''items'' of Some v \<Rightarrow> v | None \<Rightarrow> JArr []);
             mode = (case body_prop body ''mode'' of Some v \<Rightarrow> v | None \<Rightarrow> JStr ''append'')
         in case items of
              JArr raws \<Rightarrow>
                (let db1 = (if strict_eq mode (JStr ''replace'') then db\<lparr>books := []\<rparr> else db);
                     (added, db2) = bulk_loop db1 env 0 raws
                 in (Ok_bulk added mode, db2))
            | _ \<Rightarrow> (Error 400 (err ''items must be an array'' ''VALIDATION'' NoDetails), db)))"

section \<open>Notions used in the properties\<close>

text \<open>A value on which \<^verbatim>\<open>(v || '').toLowerCase()\<close> does not throw: a string, or a falsy value.\<close>

definition textual :: "json \<Rightarrow> bool" where
  "textual v = (case v of JStr s \<Rightarrow> True | _ \<Rightarrow> \<not> truthy v)"

text \<open>A book whose \<^verbatim>\<open>title\<close>, \<^verbatim>\<open>author\<close> and \<^verbatim>\<open>id\<close> the filter can search.\<close>

definition searchable :: "book \<Rightarrow> bool" where
  "searchable b = (textual (title b) \<and> textual (author b) \<and> textual (ident b))"

text \<open>
  The records that match \<open>q\<close>: all of them when \<open>q\<close> is empty, since the filter is skipped,
  and otherwise those on which the filter's predicate is true.
\<close>

definition matching :: "string \<Rightarrow> book list \<Rightarrow> book list" where
  "matching q list = (if q = [] then list else filter (\<lambda>b. matches q b = Inr True) list)"

text \<open>The books among the entries of a bulk answer, in order.\<close>

fun created_books :: "entry list \<Rightarrow> book list" where
  "created_books [] = []"
| "created_books (Created b # es) = b # created_books es"
| "created_books (Failed f raw # es) = created_books es"

text \<open>\<^verbatim>\<open>Array.isArray(v)\<close>\<close>

fun Array_isArray :: "json \<Rightarrow> bool" where
  "Array_isArray (JArr xs) = True"
| "Array_isArray _ = False"

section \<open>Auxiliary facts\<close>

subsection \<open>Sorting and filtering\<close>

lemma length_insert_by: "length (insert_by cmp x ys) = Suc (length ys)"
  by (induction ys) auto

lemma length_sort_by: "length (sort_by cmp xs) = length xs"
  by (induction xs) (auto simp: sort_by_def length_insert_by)

lemma mset_insert_by: "mset (insert_by cmp x ys) = add_mset x (mset ys)"
  by (induction ys) auto

lemma mset_sort_by: "mset (sort_by cmp xs) = mset xs"
  by (induction xs) (auto simp: sort_by_def mset_insert_by)

lemma str_includes_empty: "str_includes s [] = True"
  by (cases s) auto

lemma lower_field_textual: "textual v \<Longrightarrow> \<exists>s. lower_field v = Inr s"
  by (cases v) (auto simp: textual_def lower_field_def)

lemma matches_searchable: "searchable b \<Longrightarrow> \<exists>m. matches q b = Inr m"
proof -
  assume s: "searchable b"
  from s obtain t where t: "lower_field (title b) = Inr t"
    using lower_field_textual by (auto simp: searchable_def)
  from s obtain a where a: "lower_field (author b) = Inr a"
    using lower_field_textual by (auto simp: searchable_def)
  from s obtain i where i: "lower_field (ident b) = Inr i"
    using lower_field_textual by (auto simp: searchable_def)
  show ?thesis unfolding matches_def t a i by auto
qed

lemma filter_books_Inr:
  "filter_books q list = Inr r \<Longrightarrow> r = filter (\<lambda>b. matches q b = Inr True) list"
  by (induction list arbitrary: r) (auto split: sum.splits if_splits)

lemma filter_books_searchable:
  "\<forall>b\<in>set list. searchable b \<Longrightarrow> \<exists>r. filter_books q list = Inr r"
proof (induction list)
  case Nil
  then show ?case by simp
next
  case (Cons b bs)
  then obtain r where "filter_books q bs = Inr r" by auto
  moreover obtain m where "matches q b = Inr m" using Cons.prems matches_searchable by fastforce
  ultimately show ?case by simp
qed

lemma applyQuery_filtered:
  assumes "(if query_q url \<noteq> [] then filter_books (query_q url) list else Inr list) = Inr r"
  shows "applyQuery list url =
     Inr (slice (sort_by (compare (query_sort url) (query_dir url)) r)
            (query_offset url) (num_add (query_offset url) (query_limit url)),
          \<lparr>m_total = length r, m_limit = query_limit url,
           m_offset = query_offset url, m_sort = query_sort url,
           m_dir = (if query_dir url = 1 then ''asc'' else ''desc''), m_q = query_q url\<rparr>)"
  unfolding applyQuery_def Let_def assms by (simp add: length_sort_by)

lemma applyQuery_failed:
  assumes "(if query_q url \<noteq> [] then filter_books (query_q url) list else Inr list) = Inl e"
  shows "applyQuery list url = Inl e"
  unfolding applyQuery_def Let_def assms by simp

lemma filtered_matching:
  assumes "(if q \<noteq> [] then filter_books q list else Inr list) = Inr r"
  shows "r = matching q list"
proof (cases "q = []")
  case True
  then show ?thesis using assms by (simp add: matching_def)
next
  case False
  then have "filter_books q list = Inr r" using assms by simp
  then show ?thesis using False filter_books_Inr by (simp add: matching_def)
qed

lemma applyQuery_Inr:
  assumes "applyQuery list url = Inr (page, m)"
  shows "page = slice (sort_by (compare (query_sort url) (query_dir url)) (matching (query_q url) list))
                  (query_offset url) (num_add (query_offset url) (query_limit url))
       \<and> m = \<lparr>m_total = length (matching (query_q url) list), m_limit = query_limit url,
              m_offset = query_offset url, m_sort = query_sort url,
              m_dir = (if query_dir url = 1 then ''asc'' else ''desc''), m_q = query_q url\<rparr>"
proof (cases "if query_q url \<noteq> [] then filter_books (query_q url) list else Inr list")
  case (Inl e)
  then show ?thesis using assms applyQuery_failed by fastforce
next
  case (Inr r)
  moreover have "r = matching (query_q url) list" using Inr by (rule filtered_matching)
  ultimately show ?thesis using assms applyQuery_filtered [of url list r] by simp
qed

lemma applyQuery_searchable:
  assumes "\<forall>b\<in>set list. searchable b"
  shows "applyQuery list url =
     Inr (slice (sort_by (compare (query_sort url) (query_dir url)) (matching (query_q url) list))
            (query_offset url) (num_add (query_offset url) (query_limit url)),
          \<lparr>m_total = length (matching (query_q url) list), m_limit = query_limit url,
           m_offset = query_offset url, m_sort = query_sort url,
           m_dir = (if query_dir url = 1 then ''asc'' else ''desc''), m_q = query_q url\<rparr>)"
proof -
  obtain r0 where "filter_books (query_q url) list = Inr r0"
    using assms filter_books_searchable by blast
  then obtain r where r: "(if query_q url \<noteq> [] then filter_books (query_q url) list else Inr list) = Inr r"
    by (cases "query_q url = []") auto
  then have "r = matching (query_q url) list" by (rule filtered_matching)
  then show ?thesis using applyQuery_filtered [OF r] by simp
qed

subsection \<open>Pages\<close>

lemma concat_slices:
  fixes s :: "nat \<Rightarrow> nat"
  assumes "\<forall>k<n. s k \<le> s (Suc k)" and "s 0 = 0"
  shows "concat (map (\<lambda>k. take (s (Suc k) - s k) (drop (s k) xs)) [0..<n]) = take (s n) xs"
  using assms
proof (induction n)
  case 0
  then show ?case by simp
next
  case (Suc n)
  then have IH: "concat (map (\<lambda>k. take (s (Suc k) - s k) (drop (s k) xs)) [0..<n]) = take (s n) xs"
    by simp
  have le: "s n \<le> s (Suc n)" using Suc.prems by simp
  have "take (s (Suc n)) xs = take (s n + (s (Suc n) - s n)) xs" using le by simp
  also have "\<dots> = take (s n) xs @ take (s (Suc n) - s n) (drop (s n) xs)"
    by (rule take_add)
  finally show ?case using IH by simp
qed

lemma slice_index_nonneg: "0 \<le> r \<Longrightarrow> slice_index len (Fin r) = min (nat \<lfloor>r\<rfloor>) len"
  by (simp add: Let_def)

lemma slice_page:
  assumes "0 \<le> L"
  shows "slice xs (Fin (of_nat k * L)) (num_add (Fin (of_nat k * L)) (Fin L)) =
     take (min (nat \<lfloor>of_nat (Suc k) * L\<rfloor>) (length xs) - min (nat \<lfloor>of_nat k * L\<rfloor>) (length xs))
       (drop (min (nat \<lfloor>of_nat k * L\<rfloor>) (length xs)) xs)"
proof -
  have 1: "0 \<le> of_nat k * L" using assms by simp
  have 2: "of_nat k * L + L = of_nat (Suc k) * L" by (simp add: algebra_simps)
  have 3: "0 \<le> of_nat (Suc k) * L" using assms by (simp del: of_nat_Suc)
  show ?thesis
    unfolding slice_def Let_def num_add.simps 2
    by (simp only: slice_index_nonneg [OF 1] slice_index_nonneg [OF 3])
qed

lemma query_limit_range:
  assumes "query_limit url = Fin L"
  shows "1 \<le> L \<and> L \<le> 100"
proof -
  obtain x where x: "param_number url ''limit'' 20 = x" by simp
  show ?thesis using assms unfolding query_limit_def x
    by (cases x) (auto simp: Math_max_def Math_min_def split: if_splits)
qed

lemma offset_param_frame:
  "query_limit ((''offset'', v) # url) = query_limit url"
  "query_q ((''offset'', v) # url) = query_q url"
  "query_sort ((''offset'', v) # url) = query_sort url"
  "query_dir ((''offset'', v) # url) = query_dir url"
  by (simp_all add: query_limit_def query_q_def query_sort_def query_dir_def
      param_number_def param_or_def searchParams_get_def)

lemma pages_concat_aux:
  fixes L :: rat
  assumes "1 \<le> L" and "of_nat (length xs) \<le> of_nat n * L"
  shows "concat (map (\<lambda>k. slice xs (Fin (of_nat k * L)) (num_add (Fin (of_nat k * L)) (Fin L))) [0..<n]) = xs"
proof -
  let ?s = "\<lambda>k. min (nat \<lfloor>of_nat k * L\<rfloor>) (length xs)"
  have L0: "0 \<le> L" using assms(1) by simp
  have mono: "\<forall>k<n. ?s k \<le> ?s (Suc k)"
  proof (intro allI impI)
    fix k
    have "of_nat k * L \<le> of_nat (Suc k) * L" using L0 by (simp add: algebra_simps)
    then have "\<lfloor>of_nat k * L\<rfloor> \<le> \<lfloor>of_nat (Suc k) * L\<rfloor>" by (rule floor_mono)
    then show "?s k \<le> ?s (Suc k)" by (simp add: nat_mono min.coboundedI1 del: of_nat_Suc)
  qed
  have zero: "?s 0 = 0" by simp
  have "int (length xs) \<le> \<lfloor>of_nat n * L\<rfloor>"
    using assms(2) by (simp add: le_floor_iff)
  then have top: "?s n = length xs" by linarith
  have "concat (map (\<lambda>k. slice xs (Fin (of_nat k * L)) (num_add (Fin (of_nat k * L)) (Fin L))) [0..<n])
      = concat (map (\<lambda>k. take (?s (Suc k) - ?s k) (drop (?s k) xs)) [0..<n])"
    by (simp only: slice_page [OF L0])
  also have "\<dots> = take (?s n) xs" using mono zero by (rule concat_slices)
  finally show ?thesis using top by simp
qed

subsection \<open>Bulk import\<close>

lemma createBook_books:
  "books (snd (createBook db now rnd raw)) =
     books db @ created_books [entry_of (fst (createBook db now rnd raw)) raw]"
  by (simp add: createBook_def entry_of_def persist_def Let_def split: sum.splits prod.splits)

lemma length_bulk_loop: "length (fst (bulk_loop db env n raws)) = length raws"
  by (induction raws arbitrary: db n) (simp_all add: split_beta Let_def)

lemma created_books_append: "created_books (xs @ ys) = created_books xs @ created_books ys"
  by (induction xs rule: created_books.induct) simp_all

lemma books_bulk_loop:
  "books (snd (bulk_loop db env n raws)) = books db @ created_books (fst (bulk_loop db env n raws))"
proof (induction raws arbitrary: db n)
  case Nil
  then show ?case by simp
next
  case (Cons raw rest)
  let ?r = "createBook db (fst (env n)) (snd (env n)) raw"
  have "books (snd (bulk_loop db env n (raw # rest)))
      = books (snd ?r) @ created_books (fst (bulk_loop (snd ?r) env (Suc n) rest))"
    using Cons.IH [of "snd ?r" "Suc n"] by (simp add: split_beta Let_def)
  also have "\<dots> = books db @ created_books [entry_of (fst ?r) raw]
       @ created_books (fst (bulk_loop (snd ?r) env (Suc n) rest))"
    by (simp only: createBook_books append_assoc)
  also have "\<dots> = books db @ created_books (fst (bulk_loop db env n (raw # rest)))"
    by (simp add: split_beta Let_def created_books_append [symmetric] del: created_books.simps)
  finally show ?case .
qed

lemma nth_bulk_loop:
  "k < length raws \<Longrightarrow>
   fst (bulk_loop db env n raws) ! k =
     entry_of (fst (createBook (snd (bulk_loop db env n (take k raws)))
                      (fst (env (n + k))) (snd (env (n + k))) (raws ! k))) (raws ! k)"
proof (induction raws arbitrary: db n k)
  case Nil
  then show ?case by simp
next
  case (Cons raw rest)
  show ?case
  proof (cases k)
    case 0
    then show ?thesis by (simp add: split_beta Let_def)
  next
    case (Suc j)
    then have "j < length rest" using Cons.prems by simp
    from Cons.IH [OF this, of "snd (createBook db (fst (env n)) (snd (env n)) raw)" "Suc n"]
    show ?thesis using Suc by (simp add: split_beta Let_def)
  qed
qed

subsection \<open>Validation, create and update\<close>

lemma set_field_createdAt: "createdAt (set_field kv b) = createdAt b"
  by (cases kv) (simp add: set_field_def)

lemma Object_assign_createdAt: "createdAt (Object_assign b val) = createdAt b"
  unfolding Object_assign_def
  by (induction val arbitrary: b) (simp_all add: set_field_createdAt)

lemma updateBook_timestamps:
  assumes "findBook db (JStr i) = Some b" and "updateBook db now i patch = (Inr b', db')"
  shows "createdAt b' = createdAt b \<and> updatedAt b' = JStr now"
  using assms
  by (auto simp: updateBook_def Let_def Object_assign_createdAt split: sum.splits if_splits prod.splits)

lemma check_year_problems: "\<exists>ps. snd (check_year (out, p)) = p @ ps"
  by (simp add: check_year_def Let_def split: option.splits)

lemma check_rating_problems: "\<exists>ps. snd (check_rating (out, p)) = p @ ps"
  by (simp add: check_rating_def Let_def split: option.splits)

lemma check_tags_problems: "\<exists>ps. snd (check_tags (out, p)) = p @ ps"
  by (simp add: check_tags_def split: option.splits json.splits)

lemma checks_problems:
  "\<exists>ps. snd (check_tags (check_rating (check_year (out, p)))) = p @ ps"
proof -
  obtain o1 p1 where 1: "check_year (out, p) = (o1, p1)" by (cases "check_year (out, p)")
  obtain o2 p2 where 2: "check_rating (o1, p1) = (o2, p2)" by (cases "check_rating (o1, p1)")
  obtain a where a: "p1 = p @ a" using check_year_problems [of out p] 1 by auto
  obtain b where b: "p2 = p1 @ b" using check_rating_problems [of o1 p1] 2 by auto
  obtain c where c: "snd (check_tags (o2, p2)) = p2 @ c" using check_tags_problems by blast
  have "snd (check_tags (check_rating (check_year (out, p)))) = p2 @ c"
    using c by (simp add: 1 2)
  then show ?thesis using a b by simp
qed

lemma check_year_keys:
  "k \<noteq> ''year'' \<Longrightarrow> map_of (fst (check_year (out, p))) k = map_of out k"
  by (simp add: check_year_def Let_def update_conv' split: option.splits)

lemma check_rating_keys:
  "k \<noteq> ''rating'' \<Longrightarrow> map_of (fst (check_rating (out, p))) k = map_of out k"
  by (simp add: check_rating_def Let_def update_conv' split: option.splits)

lemma check_tags_keys:
  "k \<noteq> ''tags'' \<Longrightarrow> map_of (fst (check_tags (out, p))) k = map_of out k"
  by (simp add: check_tags_def update_conv' split: option.splits json.splits)

lemma checks_keys:
  assumes "k \<noteq> ''year''" and "k \<noteq> ''rating''" and "k \<noteq> ''tags''"
  shows "map_of (fst (check_tags (check_rating (check_year (out, p))))) k = map_of out k"
proof -
  obtain o1 p1 where 1: "check_year (out, p) = (o1, p1)" by (cases "check_year (out, p)")
  obtain o2 p2 where 2: "check_rating (o1, p1) = (o2, p2)" by (cases "check_rating (o1, p1)")
  have "map_of o1 k = map_of out k" using check_year_keys [OF assms(1), of out p] 1 by simp
  moreover have "map_of o2 k = map_of o1 k"
    using check_rating_keys [OF assms(2), of o1 p1] 2 by simp
  ultimately show ?thesis by (simp add: 1 2 check_tags_keys [OF assms(3)])
qed

lemma validateBook_Inr:
  assumes "validateBook input partial = Inr (valid, val, problems)"
  shows "\<exists>out0. project input = Inr out0
       \<and> check_tags (check_rating (check_year (out0,
            if \<not> partial \<and> title_problem (map_of out0 ''title'')
            then [''title is required (string)''] else []))) = (val, problems)
       \<and> valid = (problems = [])"
proof (cases "project input")
  case (Inl e)
  then show ?thesis using assms by (simp add: validateBook_def)
next
  case (Inr out0)
  then show ?thesis using assms
    by (auto simp add: validateBook_def Let_def split_beta prod_eq_iff)
qed

lemma createBook_Inr:
  assumes "createBook db now rnd input = (Inr b, db')"
  shows "\<exists>val problems. validateBook input False = Inr (True, val, problems)
       \<and> title b = (case map_of val ''title'' of Some t \<Rightarrow> t | None \<Rightarrow> JNull)
       \<and> createdAt b = JStr now \<and> updatedAt b = JStr now \<and> version b = JNum (Fin 1)"
proof (cases "validateBook input False")
  case (Inl e)
  then show ?thesis using assms by (simp add: createBook_def)
next
  case (Inr r)
  obtain valid val problems where r: "r = (valid, val, problems)" by (cases r)
  have "valid" using assms Inr r by (simp add: createBook_def split: if_splits)
  then show ?thesis using assms Inr r
    by (auto simp add: createBook_def Let_def split: if_splits)
qed

lemma createBook_fresh:
  assumes "createBook db now rnd input = (Inr b, db')"
  shows "version b = JNum (Fin 1) \<and> createdAt b = JStr now \<and> updatedAt b = JStr now
       \<and> (\<exists>s. title b = JStr s \<and> s \<noteq> [])"
proof -
  obtain val problems where v: "validateBook input False = Inr (True, val, problems)"
    and t: "title b = (case map_of val ''title'' of Some t \<Rightarrow> t | None \<Rightarrow> JNull)"
    and rest: "createdAt b = JStr now" "updatedAt b = JStr now" "version b = JNum (Fin 1)"
    using createBook_Inr [OF assms] by blast
  let ?p0 = "\<lambda>out0. if \<not> False \<and> title_problem (map_of out0 ''title'')
      then [''title is required (string)''] else []"
  obtain out0 where o: "project input = Inr out0"
    and c: "check_tags (check_rating (check_year (out0, ?p0 out0))) = (val, problems)"
    and e: "problems = []"
    using validateBook_Inr [OF v] by auto
  obtain ps where "snd (check_tags (check_rating (check_year (out0, ?p0 out0)))) = ?p0 out0 @ ps"
    using checks_problems by blast
  then have "?p0 out0 = []" using c e by simp
  then have "\<not> title_problem (map_of out0 ''title'')" by (simp split: if_splits)
  then obtain s where s: "map_of out0 ''title'' = Some (JStr s)" "s \<noteq> []"
    by (auto simp: title_problem_def split: option.splits json.splits)
  have "map_of val ''title'' = map_of out0 ''title''"
    using checks_keys [of "''title''" out0 "?p0 out0"] c by simp
  then have "title b = JStr s" using s t by simp
  then show ?thesis using rest s by simp
qed

lemma project_absent:
  assumes "project patch = Inr out0" and "body_prop patch k = None"
  shows "map_of out0 k = None"
proof (cases patch)
  case (JObj kv)
  have "k \<notin> fst ` set out0"
    using assms JObj by (auto simp: project_def body_prop_def split: option.splits)
  then show ?thesis by (simp add: map_of_eq_None_iff)
qed (use assms in \<open>auto simp: project_def\<close>)

lemma validateBook_absent:
  assumes "validateBook patch partial = Inr (valid, val, problems)"
      and "body_prop patch k = None"
      and "k \<noteq> ''year''" and "k \<noteq> ''rating''" and "k \<noteq> ''tags''"
  shows "map_of val k = None"
proof -
  obtain out0 p0 where o: "project patch = Inr out0"
    and c: "check_tags (check_rating (check_year (out0, p0))) = (val, problems)"
    using validateBook_Inr [OF assms(1)] by blast
  have "map_of val k = map_of out0 k"
    using checks_keys [OF assms(3-5), of out0 p0] c by simp
  then show ?thesis using project_absent [OF o assms(2)] by simp
qed

lemma Object_assign_ident:
  "map_of val ''id'' = None \<Longrightarrow> ident (Object_assign b val) = ident b"
  unfolding Object_assign_def
proof (induction val arbitrary: b)
  case Nil
  then show ?case by simp
next
  case (Cons kv val)
  obtain k v where kv: "kv = (k, v)" by (cases kv)
  have k: "k \<noteq> ''id''" and rest: "map_of val ''id'' = None"
    using Cons.prems kv by (auto split: if_splits)
  have "ident (set_field kv b) = ident b" using k kv by (simp add: set_field_def)
  then show ?case using Cons.IH [OF rest, of "set_field kv b"] by simp
qed

lemma Object_assign_version:
  "map_of val ''version'' = None \<Longrightarrow> version (Object_assign b val) = version b"
  unfolding Object_assign_def
proof (induction val arbitrary: b)
  case Nil
  then show ?case by simp
next
  case (Cons kv val)
  obtain k v where kv: "kv = (k, v)" by (cases kv)
  have k: "k \<noteq> ''version''" and rest: "map_of val ''version'' = None"
    using Cons.prems kv by (auto split: if_splits)
  have "version (set_field kv b) = version b" using k kv by (simp add: set_field_def)
  then show ?case using Cons.IH [OF rest, of "set_field kv b"] by simp
qed

lemma updateBook_Inr:
  assumes "updateBook db now i patch = (Inr b', db')"
  shows "\<exists>b val problems. findBook db (JStr i) = Some b
       \<and> validateBook patch True = Inr (True, val, problems)
       \<and> b' = (Object_assign b val)\<lparr>updatedAt := JStr now,
                                     version := plus_one (version (Object_assign b val))\<rparr>"
proof (cases "findBook db (JStr i)")
  case None
  then show ?thesis using assms by (simp add: updateBook_def)
next
  case (Some b)
  show ?thesis
  proof (cases "patch_version patch")
    case (Inl e)
    then show ?thesis using assms Some by (simp add: updateBook_def)
  next
    case (Inr pv)
    then have nc: "\<not> version_conflict pv b"
      using assms Some by (auto simp: updateBook_def split: if_splits)
    show ?thesis
    proof (cases "validateBook patch True")
      case (Inl e)
      then show ?thesis using assms Some Inr nc by (simp add: updateBook_def)
    next
      case r: (Inr r)
      obtain valid val problems where v: "r = (valid, val, problems)" by (cases r)
      have "valid" using assms Some Inr nc r v by (simp add: updateBook_def split: if_splits)
      then show ?thesis
        using assms Some Inr nc r v by (simp add: updateBook_def Let_def)
    qed
  qed
qed

lemma updateBook_keeps_id:
  assumes "findBook db (JStr i) = Some b" and "updateBook db now i patch = (Inr b', db')"
      and "body_prop patch ''id'' = None"
  shows "ident b' = ident b"
proof -
  obtain val problems where v: "validateBook patch True = Inr (True, val, problems)"
    and b': "b' = (Object_assign b val)\<lparr>updatedAt := JStr now,
                                     version := plus_one (version (Object_assign b val))\<rparr>"
    using updateBook_Inr [OF assms(2)] assms(1) by auto
  have "map_of val ''id'' = None" using validateBook_absent [OF v assms(3)] by simp
  then show ?thesis using b' by (simp add: Object_assign_ident)
qed

lemma updateBook_increments:
  assumes "findBook db (JStr i) = Some b" and "updateBook db now i patch = (Inr b', db')"
      and "body_prop patch ''version'' = None" and "version b = JNum (Fin n)"
  shows "version b' = JNum (Fin (n + 1))"
proof -
  obtain val problems where v: "validateBook patch True = Inr (True, val, problems)"
    and b': "b' = (Object_assign b val)\<lparr>updatedAt := JStr now,
                                     version := plus_one (version (Object_assign b val))\<rparr>"
    using updateBook_Inr [OF assms(2)] assms(1) by auto
  have "map_of val ''version'' = None" using validateBook_absent [OF v assms(3)] by simp
  then have "version (Object_assign b val) = JNum (Fin n)"
    using assms(4) by (simp add: Object_assign_version)
  then show ?thesis using b' by (simp add: plus_one_def)
qed

subsection \<open>Distinct identifiers under delete and create\<close>

lemma remove_first_distinct:
  "distinct (map ident bs) \<Longrightarrow> distinct (map ident (remove_first P bs))"
proof (induction bs)
  case Nil
  then show ?case by simp
next
  case (Cons b bs)
  have sub: "set (remove_first P bs) \<subseteq> set bs" for bs
    by (induction bs) auto
  show ?case using Cons sub [of bs] by auto
qed

lemma deleteBook_distinct:
  "distinct (map ident (books db)) \<Longrightarrow> distinct (map ident (books (snd (deleteBook db i))))"
  by (simp add: deleteBook_def persist_def remove_first_distinct split: option.splits)

lemma project_present:
  assumes "project input = Inr out0" and "k \<in> set book_fields"
  shows "map_of out0 k = body_prop input k"
proof (cases input)
  case (JObj kv)
  then have o: "out0 = concat (map (\<lambda>k. case map_of kv k of Some v \<Rightarrow> [(k, v)] | None \<Rightarrow> []) book_fields)"
    using assms(1) by (simp add: project_def)
  have "map_of (concat (map (\<lambda>k. case map_of kv k of Some v \<Rightarrow> [(k, v)] | None \<Rightarrow> []) ks)) k =
      (if k \<in> set ks then map_of kv k else None)" for ks
    by (induction ks) (auto split: option.splits)
  then show ?thesis using assms(2) o JObj by (simp add: body_prop_def)
next
  case (JArr xs)
  then show ?thesis using assms(1) by (simp add: project_def body_prop_def)
qed (use assms in \<open>auto simp: project_def\<close>)

lemma findBook_None_string:
  "findBook db (JStr s) = None \<Longrightarrow> JStr s \<notin> set (map ident (books db))"
proof -
  assume "findBook db (JStr s) = None"
  then have "\<forall>b\<in>set (books db). \<not> strict_eq (ident b) (JStr s)"
    by (simp add: findBook_def find_None_iff)
  moreover have "strict_eq x (JStr s) = (x = JStr s)" for x by (cases x) auto
  ultimately show ?thesis by auto
qed

lemma createBook_distinct:
  assumes "distinct (map ident (books db))"
      and "body_prop input ''id'' = Some (JStr s)" and "s \<noteq> []"
      and "createBook db now rnd input = (Inr b, db')"
  shows "ident b = JStr s \<and> distinct (map ident (books db'))"
proof -
  obtain val problems where v: "validateBook input False = Inr (True, val, problems)"
    using createBook_Inr [OF assms(4)] by blast
  obtain out0 p0 where o: "project input = Inr out0"
    and c: "check_tags (check_rating (check_year (out0, p0))) = (val, problems)"
    using validateBook_Inr [OF v] by blast
  have "map_of val ''id'' = map_of out0 ''id''"
    using checks_keys [of "''id''" out0 p0] c by simp
  also have "\<dots> = Some (JStr s)"
    using project_present [OF o, of "''id''"] assms(2) by (simp add: book_fields_def)
  finally have i: "map_of val ''id'' = Some (JStr s)" .
  have nf: "findBook db (JStr s) = None"
    using assms(3,4) v i by (auto simp: createBook_def split: if_splits)
  have b: "ident b = JStr s" and d: "books db' = books db @ [b]"
    using assms(3,4) v i nf by (auto simp: createBook_def Let_def or_else_def persist_def)
  show ?thesis using b d assms(1) findBook_None_string [OF nf] by auto
qed

section \<open>Properties of the update path\<close>

text \<open>
  Claim C1: a successful update never alters \<^verbatim>\<open>id\<close> and \<^verbatim>\<open>createdAt\<close>. The code copies
  every whitelisted key of the patch onto the stored record, and \<^verbatim>\<open>id\<close> is whitelisted:
  on the seeded collection, \<^verbatim>\<open>PUT /api/books/b1\<close> with the body \<^verbatim>\<open>{"id": "b9"}\<close> succeeds
  and returns and stores the record under the identifier \<^verbatim>\<open>b9\<close>. Its \<^verbatim>\<open>createdAt\<close> is kept.
\<close>

theorem update_overwrites_id:
  "map_sum id (\<lambda>b. (ident b, createdAt b))
     (fst (updateBook (initial ''t0'') ''t1'' ''b1'' (JObj [(''id'', JStr ''b9'')])))
     = Inr (JStr ''b9'', JStr ''t0'')
   \<and> map ident (books (snd (updateBook (initial ''t0'') ''t1'' ''b1'' (JObj [(''id'', JStr ''b9'')]))))
     = [JStr ''b9'', JStr ''b2'', JStr ''b3'']"
  by code_simp

text \<open>
  Claim C2: every successful update increases \<^verbatim>\<open>version\<close> by exactly 1, so that it stays
  a positive integer. The expected version of the patch is compared after \<^verbatim>\<open>Number(...)\<close>,
  then copied as it is onto the record, and only then incremented: on the seeded
  collection, the body \<^verbatim>\<open>{"version": "1"}\<close> passes the comparison and leaves the record
  with the version \<^verbatim>\<open>"11"\<close>, a string.
\<close>

theorem update_version_string:
  "map_sum id version
     (fst (updateBook (initial ''t0'') ''t1'' ''b1'' (JObj [(''version'', JStr ''1'')])))
     = Inr (JStr ''11'')
   \<and> map version (books (snd (updateBook (initial ''t0'') ''t1'' ''b1'' (JObj [(''version'', JStr ''1'')]))))
     = [JStr ''11'', JNum (Fin 1), JNum (Fin 1)]"
  by code_simp

text \<open>
  Claim C3: when the patch carries an expected version, a JSON number, that differs from
  the current version of the stored record, the update fails with status 409 and the code
  \<^verbatim>\<open>VERSION_CONFLICT\<close>, the failure reports the record's current version as the expected
  one, and the state, in memory and on disk, is the one before the call.
\<close>

theorem stale_version_conflict:
  assumes "findBook db (JStr i) = Some b"
      and "patch_version patch = Inr (Some (JNum n))"
      and "JNum n \<noteq> version b"
  shows "updateBook db now i patch =
     (Inl (Throw 409 (err ''Version conflict'' ''VERSION_CONFLICT'' (Expected (version b)))), db)"
proof -
  have "\<not> strict_eq (JNum (to_number (JNum n))) (version b)"
    using assms(3) by (cases "version b") auto
  then have "version_conflict (Some (JNum n)) b"
    by (simp add: version_conflict_def)
  then show ?thesis
    using assms(1,2) by (simp add: updateBook_def)
qed

theorem stale_version_conflict_witness:
  "findBook (initial ''t0'') (JStr ''b1'') = Some (hd (seed ''t0''))
   \<and> patch_version (JObj [(''version'', JNum (Fin 2))]) = Inr (Some (JNum (Fin 2)))
   \<and> JNum (Fin 2) \<noteq> version (hd (seed ''t0''))
   \<and> updateBook (initial ''t0'') ''t1'' ''b1'' (JObj [(''version'', JNum (Fin 2))]) =
       (Inl (Throw 409 (err ''Version conflict'' ''VERSION_CONFLICT'' (Expected (JNum (Fin 1))))),
        initial ''t0'')"
proof -
  have 1: "findBook (initial ''t0'') (JStr ''b1'') = Some (hd (seed ''t0''))" by code_simp
  have 2: "patch_version (JObj [(''version'', JNum (Fin 2))]) = Inr (Some (JNum (Fin 2)))"
    by code_simp
  have 3: "JNum (Fin 2) \<noteq> version (hd (seed ''t0''))" by code_simp
  have 4: "version (hd (seed ''t0'')) = JNum (Fin 1)" by code_simp
  show ?thesis
    using stale_version_conflict [OF 1 2 3, of "''t1''"] 1 2 3 4 by simp
qed

text \<open>
  Claim C4: the identifiers of the collection stay pairwise distinct under create, update
  and delete. \<open>createBook\<close> refuses an identifier that is present; \<open>updateBook\<close> has no such
  check: on the seeded collection, whose identifiers are distinct, \<^verbatim>\<open>PUT /api/books/b1\<close>
  with the body \<^verbatim>\<open>{"id": "b2"}\<close> succeeds and leaves two records with the identifier \<^verbatim>\<open>b2\<close>.
\<close>

theorem update_duplicates_id:
  "distinct (map ident (books (initial ''t0'')))
   \<and> map ident (books (snd (updateBook (initial ''t0'') ''t1'' ''b1'' (JObj [(''id'', JStr ''b2'')]))))
     = [JStr ''b2'', JStr ''b2'', JStr ''b3'']
   \<and> \<not> distinct (map ident
         (books (snd (updateBook (initial ''t0'') ''t1'' ''b1'' (JObj [(''id'', JStr ''b2'')])))))"
  by code_simp

text \<open>
  Claim C8: every stored record has a non-empty string as its title, also after an update.
  In partial mode the title is not checked at all, present or not: on the seeded
  collection, the body \<^verbatim>\<open>{"title": "", "version": 1}\<close>, which the client sends when the
  title field of its form is empty, succeeds and stores the empty title.
\<close>

theorem update_empty_title:
  "map_sum id title
     (fst (updateBook (initial ''t0'') ''t1'' ''b1''
        (JObj [(''title'', JStr []), (''version'', JNum (Fin 1))])))
     = Inr (JStr [])
   \<and> map title (books (snd (updateBook (initial ''t0'') ''t1'' ''b1''
        (JObj [(''title'', JStr []), (''version'', JNum (Fin 1))]))))
     = [JStr [], JStr ''Designing Data-Intensive Applications'', JStr ''You Don't Know JS Yet'']"
  by code_simp

section \<open>Properties of the query engine\<close>

text \<open>
  Claim C5: the query filters first, then sorts, then takes the slice, and \<^verbatim>\<open>meta.total\<close>
  is the number of records that match \<open>q\<close>, counted after the filter and before the slice.
  Whatever the query returns has this form, and it does return on every collection whose
  records have strings (or nothing) as title, author and identifier.
\<close>

theorem query_pipeline:
  "(\<forall>page m. applyQuery list url = Inr (page, m) \<longrightarrow>
      page = slice (sort_by (compare (query_sort url) (query_dir url)) (matching (query_q url) list))
               (query_offset url) (num_add (query_offset url) (query_limit url))
      \<and> m_total m = length (matching (query_q url) list))
   \<and> ((\<forall>b\<in>set list. searchable b) \<longrightarrow> (\<exists>page m. applyQuery list url = Inr (page, m)))"
proof (intro conjI allI impI)
  fix page m assume a: "applyQuery list url = Inr (page, m)"
  from applyQuery_Inr [OF a]
  show "page = slice (sort_by (compare (query_sort url) (query_dir url)) (matching (query_q url) list))
               (query_offset url) (num_add (query_offset url) (query_limit url))"
    by simp
  from applyQuery_Inr [OF a] show "m_total m = length (matching (query_q url) list)" by simp
next
  assume "\<forall>b\<in>set list. searchable b"
  then show "\<exists>page m. applyQuery list url = Inr (page, m)"
    using applyQuery_searchable by blast
qed

theorem query_pipeline_witness:
  "list_all searchable (seed ''t0'')
   \<and> (\<exists>page m. applyQuery (seed ''t0'')
          [(''q'', ''Martin''), (''sort'', ''rating''), (''dir'', ''desc''), (''limit'', ''1''), (''offset'', ''1'')]
          = Inr (page, m)
        \<and> page = [seed ''t0'' ! 0] \<and> m_total m = 2)"
proof -
  let ?url = "[(''q'', ''Martin''), (''sort'', ''rating''), (''dir'', ''desc''), (''limit'', ''1''), (''offset'', ''1'')]"
  have s: "list_all searchable (seed ''t0'')" by code_simp
  then have s': "\<forall>b\<in>set (seed ''t0''). searchable b" by (simp add: list_all_iff)
  have p: "slice (sort_by (compare (query_sort ?url) (query_dir ?url)) (matching (query_q ?url) (seed ''t0'')))
               (query_offset ?url) (num_add (query_offset ?url) (query_limit ?url)) = [seed ''t0'' ! 0]"
    by code_simp
  have t: "length (matching (query_q ?url) (seed ''t0'')) = 2" by code_simp
  from query_pipeline [of "seed ''t0''" ?url] s'
  obtain page m where pm: "applyQuery (seed ''t0'') ?url = Inr (page, m)" by blast
  with query_pipeline [of "seed ''t0''" ?url] p t
  have "page = [seed ''t0'' ! 0] \<and> m_total m = 2" by metis
  with pm s show ?thesis by blast
qed

text \<open>
  Claim C6, as amended: when the \<^verbatim>\<open>limit\<close> and \<^verbatim>\<open>offset\<close> parameters, where supplied and not
  empty, are numeric (\<^verbatim>\<open>Number\<close> of them is not NaN), the effective limit is a number in
  \<open>[1, 100]\<close>, 20 when the parameter is absent or empty, and the effective offset is a number
  at least 0, possibly infinite, 0 when the parameter is absent or empty; each of them is an
  integer whenever the supplied value is one; and the meta of the answer echoes them.
\<close>

theorem effective_limit_offset:
  assumes "param_number url ''limit'' 20 \<noteq> NaN" and "param_number url ''offset'' 0 \<noteq> NaN"
  shows "(\<exists>r. query_limit url = Fin r \<and> 1 \<le> r \<and> r \<le> 100)
       \<and> (query_offset url = PosInf \<or> (\<exists>r. query_offset url = Fin r \<and> 0 \<le> r))
       \<and> (searchParams_get url ''limit'' \<in> {None, Some []} \<longrightarrow> query_limit url = Fin 20)
       \<and> (searchParams_get url ''offset'' \<in> {None, Some []} \<longrightarrow> query_offset url = Fin 0)
       \<and> (Number_isInteger (param_number url ''limit'' 20) \<longrightarrow> Number_isInteger (query_limit url))
       \<and> (Number_isInteger (param_number url ''offset'' 0) \<longrightarrow> Number_isInteger (query_offset url))
       \<and> (\<forall>list page m. applyQuery list url = Inr (page, m) \<longrightarrow>
             m_limit m = query_limit url \<and> m_offset m = query_offset url)"
proof -
  obtain x where x: "param_number url ''limit'' 20 = x" by simp
  obtain y where y: "param_number url ''offset'' 0 = y" by simp
  have 1: "\<exists>r. query_limit url = Fin r \<and> 1 \<le> r \<and> r \<le> 100"
    using assms(1) unfolding query_limit_def x
    by (cases x) (auto simp: Math_max_def Math_min_def)
  have 2: "query_offset url = PosInf \<or> (\<exists>r. query_offset url = Fin r \<and> 0 \<le> r)"
    using assms(2) unfolding query_offset_def y
    by (cases y) (auto simp: Math_max_def)
  have 3: "searchParams_get url ''limit'' \<in> {None, Some []} \<longrightarrow> query_limit url = Fin 20"
    by (auto simp: query_limit_def param_number_def Math_max_def Math_min_def)
  have 4: "searchParams_get url ''offset'' \<in> {None, Some []} \<longrightarrow> query_offset url = Fin 0"
    by (auto simp: query_offset_def param_number_def Math_max_def)
  have 5: "Number_isInteger (param_number url ''limit'' 20) \<longrightarrow> Number_isInteger (query_limit url)"
    unfolding query_limit_def x
    by (cases x) (auto simp: Math_max_def Math_min_def)
  have 6: "Number_isInteger (param_number url ''offset'' 0) \<longrightarrow> Number_isInteger (query_offset url)"
    unfolding query_offset_def y
    by (cases y) (auto simp: Math_max_def)
  have 7: "\<forall>list page m. applyQuery list url = Inr (page, m) \<longrightarrow>
             m_limit m = query_limit url \<and> m_offset m = query_offset url"
    using applyQuery_Inr by fastforce
  show ?thesis using 1 2 3 4 5 6 7 by blast
qed

theorem effective_limit_offset_witness:
  "param_number [(''limit'', ''250''), (''offset'', ''7'')] ''limit'' 20 \<noteq> NaN
   \<and> param_number [(''limit'', ''250''), (''offset'', ''7'')] ''offset'' 0 \<noteq> NaN
   \<and> (\<exists>r. query_limit [(''limit'', ''250''), (''offset'', ''7'')] = Fin r \<and> 1 \<le> r \<and> r \<le> 100)
   \<and> Number_isInteger (query_limit [(''limit'', ''250''), (''offset'', ''7'')])
   \<and> Number_isInteger (query_offset [(''limit'', ''250''), (''offset'', ''7'')])"
proof -
  let ?url = "[(''limit'', ''250''), (''offset'', ''7'')]"
  have 1: "param_number ?url ''limit'' 20 \<noteq> NaN" by code_simp
  have 2: "param_number ?url ''offset'' 0 \<noteq> NaN" by code_simp
  have 3: "Number_isInteger (param_number ?url ''limit'' 20)" by code_simp
  have 4: "Number_isInteger (param_number ?url ''offset'' 0)" by code_simp
  show ?thesis using effective_limit_offset [OF 1 2] 1 2 3 4 by blast
qed

text \<open>
  Claim C6, as stated, fails: \<^verbatim>\<open>limit=2.5\<close> is neither rounded nor refused, the
  effective limit is 2.5 and the meta echoes it.
\<close>

theorem effective_limit_offset_counterexample:
  "applyQuery [] [(''limit'', ''2.5'')] =
     Inr ([], \<lparr>m_total = 0, m_limit = Fin (5 / 2), m_offset = Fin 0, m_sort = ''title'',
               m_dir = ''asc'', m_q = []\<rparr>)
   \<and> \<not> Number_isInteger (Fin (5 / 2))"
  by code_simp

text \<open>A value that is not numeric passes both clamps as NaN.\<close>

lemma limit_not_numeric:
  "query_limit [(''limit'', ''abc'')] = NaN \<and> query_offset [(''offset'', ''abc'')] = NaN"
  by code_simp

text \<open>
  Claim C7: for a fixed filter, sort and limit, the pages requested at the offsets
  \<open>0, l, 2l, \<dots>\<close>, where \<open>l\<close> is the effective limit, are all answered, and their concatenation
  is the whole filtered and sorted sequence, so that every matching record occurs in it
  as often as in the collection. The effective limit is an integer, as the data model has
  it. The offsets are given as the strings \<open>os\<close>, the \<open>k\<close>-th of which denotes the integer
  \<open>k * l\<close>; there are enough of them to reach the total, and they stay below \<open>2\<^sup>5\<^sup>3\<close>, where
  the numbers of JavaScript hold every integer and add them exactly.
\<close>

theorem pages_concat:
  assumes "\<forall>b\<in>set list. searchable b"
      and "query_limit url = Fin (of_nat l)"
      and "\<forall>k<length os. query_offset ((''offset'', os ! k) # url) = Fin (of_nat (k * l))"
      and "length (matching (query_q url) list) \<le> length os * l"
      and "length os * l \<le> 2 ^ 53"
  shows "\<exists>pages.
           map (\<lambda>off. map_sum id fst (applyQuery list ((''offset'', off) # url))) os = map Inr pages
         \<and> concat pages = sort_by (compare (query_sort url) (query_dir url)) (matching (query_q url) list)
         \<and> mset (concat pages) = mset (matching (query_q url) list)"
proof -
  let ?L = "of_nat l :: rat"
  let ?S = "sort_by (compare (query_sort url) (query_dir url)) (matching (query_q url) list)"
  let ?page = "\<lambda>k. slice ?S (Fin (of_nat k * ?L)) (num_add (Fin (of_nat k * ?L)) (Fin ?L))"
  let ?pages = "map ?page [0..<length os]"
  have L: "1 \<le> ?L" using assms(2) query_limit_range by blast
  have each: "map_sum id fst (applyQuery list ((''offset'', os ! k) # url)) = Inr (?page k)"
    if "k < length os" for k
    using that assms(3) by (simp add: applyQuery_searchable [OF assms(1)] offset_param_frame assms(2))
  have "map (\<lambda>off. map_sum id fst (applyQuery list ((''offset'', off) # url))) os
      = map (\<lambda>k. map_sum id fst (applyQuery list ((''offset'', os ! k) # url))) [0..<length os]"
    by (simp add: map_equality_iff)
  also have "\<dots> = map (\<lambda>k. Inr (?page k)) [0..<length os]"
    using each by simp
  finally have 1: "map (\<lambda>off. map_sum id fst (applyQuery list ((''offset'', off) # url))) os = map Inr ?pages"
    by (simp add: comp_def)
  have "(of_nat (length ?S) :: rat) \<le> of_nat (length os * l)"
    using assms(4) by (simp only: length_sort_by of_nat_le_iff)
  then have "of_nat (length ?S) \<le> of_nat (length os) * ?L" by simp
  then have 2: "concat ?pages = ?S" using L by (rule pages_concat_aux [rotated])
  have 3: "mset (concat ?pages) = mset (matching (query_q url) list)"
    unfolding 2 by (rule mset_sort_by)
  show ?thesis using 1 2 3 by blast
qed

theorem pages_concat_witness:
  "list_all searchable (seed ''t0'')
   \<and> query_limit [(''limit'', ''2'')] = Fin (of_nat 2)
   \<and> length [''0'', ''2''] * 2 \<le> (2 :: nat) ^ 53
   \<and> (\<exists>pages.
         map (\<lambda>off. map_sum id fst (applyQuery (seed ''t0'') ((''offset'', off) # [(''limit'', ''2'')])))
           [''0'', ''2''] = map Inr pages
       \<and> concat pages = seed ''t0'')"
proof -
  let ?url = "[(''limit'', ''2'')]"
  have s: "list_all searchable (seed ''t0'')" by code_simp
  then have 1: "\<forall>b\<in>set (seed ''t0''). searchable b" by (simp add: list_all_iff)
  have "query_limit ?url = Fin 2" by code_simp
  then have 2: "query_limit ?url = Fin (of_nat 2)" by simp
  have o0: "query_offset ((''offset'', ''0'') # ?url) = Fin 0" by code_simp
  have o1: "query_offset ((''offset'', ''2'') # ?url) = Fin 2" by code_simp
  have 3: "\<forall>k<length [''0'', ''2''].
      query_offset ((''offset'', [''0'', ''2''] ! k) # ?url) = Fin (of_nat (k * 2))"
  proof (intro allI impI)
    fix k :: nat assume "k < length [''0'', ''2'']"
    then consider "k = 0" | "k = 1" by fastforce
    then show "query_offset ((''offset'', [''0'', ''2''] ! k) # ?url) = Fin (of_nat (k * 2))"
      using o0 o1 by cases simp_all
  qed
  have len: "length (matching (query_q ?url) (seed ''t0'')) = 3" by code_simp
  have 4: "length (matching (query_q ?url) (seed ''t0'')) \<le> length [''0'', ''2''] * 2"
    unfolding len by simp
  have 5: "length [''0'', ''2''] * 2 \<le> (2 :: nat) ^ 53" by simp
  have 6: "sort_by (compare (query_sort ?url) (query_dir ?url)) (matching (query_q ?url) (seed ''t0''))
      = seed ''t0''"
    by code_simp
  show ?thesis using pages_concat [OF 1 2 3 4 5] s 2 5 unfolding 6 by blast
qed

section \<open>Properties of the bulk import\<close>

text \<open>
  Claim C9: for an array of \<open>N\<close> items the answer has \<open>N\<close> entries in the order of the
  items. The \<open>k\<close>-th entry is what \<open>createBook\<close> gives for the \<open>k\<close>-th item in the state that
  the items before it have left, a failure being recorded with its input and not ending the
  loop; in replace mode this starts from the empty collection. In the end the collection is
  the initial one, emptied in replace mode, followed by the created books.
\<close>

theorem bulk_results:
  assumes "body_prop body ''items'' = Some (JArr raws)"
  shows "\<exists>added db2.
      bulkImport db env body =
        (Ok_bulk added (case body_prop body ''mode'' of Some v \<Rightarrow> v | None \<Rightarrow> JStr ''append''), db2)
    \<and> length added = length raws
    \<and> (\<forall>k<length raws.
          added ! k =
            entry_of (fst (createBook
                (snd (bulk_loop (if body_prop body ''mode'' = Some (JStr ''replace'')
                                 then db\<lparr>books := []\<rparr> else db) env 0 (take k raws)))
                (fst (env k)) (snd (env k)) (raws ! k))) (raws ! k))
    \<and> books db2 =
        (if body_prop body ''mode'' = Some (JStr ''replace'') then [] else books db) @ created_books added"
proof -
  let ?mode = "case body_prop body ''mode'' of Some v \<Rightarrow> v | None \<Rightarrow> JStr ''append''"
  let ?db1 = "if body_prop body ''mode'' = Some (JStr ''replace'') then db\<lparr>books := []\<rparr> else db"
  have nn: "body \<noteq> JNull" using assms by (auto simp: body_prop_def)
  have m: "strict_eq ?mode (JStr ''replace'') = (body_prop body ''mode'' = Some (JStr ''replace''))"
  proof (cases "body_prop body ''mode''")
    case None
    then show ?thesis by simp
  next
    case (Some v)
    then show ?thesis by (cases v) auto
  qed
  have eq: "bulkImport db env body =
      (Ok_bulk (fst (bulk_loop ?db1 env 0 raws)) ?mode, snd (bulk_loop ?db1 env 0 raws))"
    unfolding bulkImport_def Let_def using nn assms m by (simp add: split_beta)
  have 1: "length (fst (bulk_loop ?db1 env 0 raws)) = length raws" by (rule length_bulk_loop)
  have 2: "\<forall>k<length raws. fst (bulk_loop ?db1 env 0 raws) ! k =
            entry_of (fst (createBook (snd (bulk_loop ?db1 env 0 (take k raws)))
                (fst (env k)) (snd (env k)) (raws ! k))) (raws ! k)"
    using nth_bulk_loop [of _ raws ?db1 env 0] by simp
  have 3: "books (snd (bulk_loop ?db1 env 0 raws)) =
      (if body_prop body ''mode'' = Some (JStr ''replace'') then [] else books db)
        @ created_books (fst (bulk_loop ?db1 env 0 raws))"
    by (simp add: books_bulk_loop)
  show ?thesis using eq 1 2 3 by blast
qed

theorem bulk_results_witness:
  "body_prop (JObj [(''items'', JArr [JObj [(''title'', JStr ''A'')], JObj [], JObj [(''title'', JStr ''C'')]]),
                    (''mode'', JStr ''replace'')]) ''items''
     = Some (JArr [JObj [(''title'', JStr ''A'')], JObj [], JObj [(''title'', JStr ''C'')]])
   \<and> (\<exists>added db2.
        bulkImport (initial ''t0'') (\<lambda>n. (''t1'', ''00000'' @ show_nat n))
          (JObj [(''items'', JArr [JObj [(''title'', JStr ''A'')], JObj [], JObj [(''title'', JStr ''C'')]]),
                 (''mode'', JStr ''replace'')])
          = (Ok_bulk added (JStr ''replace''), db2)
      \<and> length added = 3
      \<and> books db2 = created_books added)"
proof -
  let ?raws = "[JObj [(''title'', JStr ''A'')], JObj [], JObj [(''title'', JStr ''C'')]]"
  let ?body = "JObj [(''items'', JArr ?raws), (''mode'', JStr ''replace'')]"
  have 1: "body_prop ?body ''items'' = Some (JArr ?raws)" by code_simp
  have 2: "body_prop ?body ''mode'' = Some (JStr ''replace'')" by code_simp
  from bulk_results [OF 1, of "initial ''t0''" "\<lambda>n. (''t1'', ''00000'' @ show_nat n)"]
  show ?thesis using 1 unfolding 2 by auto
qed

text \<open>
  Claim C10: when \<^verbatim>\<open>items\<close> is present and not an array, the import fails with status 400
  and the code \<^verbatim>\<open>VALIDATION\<close>, and the state is unchanged, whatever the mode: the check
  precedes the clearing of the collection.
\<close>

theorem bulk_not_array:
  assumes "body_prop body ''items'' = Some v" and "\<not> Array_isArray v"
  shows "bulkImport db env body =
     (Error 400 (err ''items must be an array'' ''VALIDATION'' NoDetails), db)"
proof -
  have nn: "body \<noteq> JNull" using assms(1) by (auto simp: body_prop_def)
  show ?thesis
    using assms nn by (cases v) (simp_all add: bulkImport_def Let_def)
qed

theorem bulk_not_array_witness:
  "body_prop (JObj [(''items'', JStr ''x''), (''mode'', JStr ''replace'')]) ''items'' = Some (JStr ''x'')
   \<and> \<not> Array_isArray (JStr ''x'')
   \<and> bulkImport (initial ''t0'') (\<lambda>n. (''t1'', ''00000'' @ show_nat n))
        (JObj [(''items'', JStr ''x''), (''mode'', JStr ''replace'')]) =
      (Error 400 (err ''items must be an array'' ''VALIDATION'' NoDetails), initial ''t0'')"
proof -
  have 1: "body_prop (JObj [(''items'', JStr ''x''), (''mode'', JStr ''replace'')]) ''items'' = Some (JStr ''x'')"
    by code_simp
  have 2: "\<not> Array_isArray (JStr ''x'')" by simp
  show ?thesis using bulk_not_array [OF 1 2] 1 2 by simp
qed

end
